theory Spec2Isabelle
  imports Main
begin

section \<open>Strings\<close>

text \<open>
  A JavaScript string is modelled as a \<open>string\<close>, a list of characters, a character being a
  UTF-16 code unit below 256 (ASCII and the Latin-1 supplement). The renderer works on
  strings unit by unit, naming ASCII characters only. On these code units \<open>toLowerCase\<close>
  works unit by unit too: the letters A to Z and the capital letters of the Latin-1
  supplement (U+00C0 to U+00DE, the multiplication sign U+00D7 apart) go to their small
  letters, 32 places up; every other unit is left as it is.
\<close>

text \<open>\<open>str.replace(/c/g, r)\<close> for a one-character pattern \<open>c\<close> and a replacement \<open>r\<close> that
  holds no \<open>$\<close>: every occurrence of \<open>c\<close>, left to right, becomes \<open>r\<close>.\<close>

fun replaceAll_char :: "char \<Rightarrow> string \<Rightarrow> string \<Rightarrow> string" where
  "replaceAll_char c r [] = []"
| "replaceAll_char c r (x # xs) =
     (if x = c then r @ replaceAll_char c r xs else x # replaceAll_char c r xs)"

definition upper_letters :: string where
  "upper_letters = ''ABCDEFGHIJKLMNOPQRSTUVWXYZ''"

definition lower_letters :: string where
  "lower_letters = ''abcdefghijklmnopqrstuvwxyz''"

definition upper_latin1 :: string where
  "upper_latin1 =
     [CHR 0xC0, CHR 0xC1, CHR 0xC2, CHR 0xC3, CHR 0xC4, CHR 0xC5, CHR 0xC6, CHR 0xC7,
      CHR 0xC8, CHR 0xC9, CHR 0xCA, CHR 0xCB, CHR 0xCC, CHR 0xCD, CHR 0xCE, CHR 0xCF,
      CHR 0xD0, CHR 0xD1, CHR 0xD2, CHR 0xD3, CHR 0xD4, CHR 0xD5, CHR 0xD6,
      CHR 0xD8, CHR 0xD9, CHR 0xDA, CHR 0xDB, CHR 0xDC, CHR 0xDD, CHR 0xDE]"

definition lower_latin1 :: string where
  "lower_latin1 =
     [CHR 0xE0, CHR 0xE1, CHR 0xE2, CHR 0xE3, CHR 0xE4, CHR 0xE5, CHR 0xE6, CHR 0xE7,
      CHR 0xE8, CHR 0xE9, CHR 0xEA, CHR 0xEB, CHR 0xEC, CHR 0xED, CHR 0xEE, CHR 0xEF,
      CHR 0xF0, CHR 0xF1, CHR 0xF2, CHR 0xF3, CHR 0xF4, CHR 0xF5, CHR 0xF6,
      CHR 0xF8, CHR 0xF9, CHR 0xFA, CHR 0xFB, CHR 0xFC, CHR 0xFD, CHR 0xFE]"

text \<open>The character class \<open>[A-Z]\<close>.\<close>

definition isUpperAZ :: "char \<Rightarrow> bool" where
  "isUpperAZ c = (c \<in> set upper_letters)"

definition toLowerCase_char :: "char \<Rightarrow> char" where
  "toLowerCase_char c =
     (case map_of (zip (upper_letters @ upper_latin1) (lower_letters @ lower_latin1)) c of
        Some l \<Rightarrow> l
      | None \<Rightarrow> c)"

definition toLowerCase :: "string \<Rightarrow> string" where
  "toLowerCase s = map toLowerCase_char s"

text \<open>\<open>s.startsWith(p)\<close> and \<open>s.includes(sub)\<close>.\<close>

fun startsWith :: "string \<Rightarrow> string \<Rightarrow> bool" where
  "startsWith s [] = True"
| "startsWith [] (p # ps) = False"
| "startsWith (c # cs) (p # ps) = (c = p \<and> startsWith cs ps)"

fun includes_str :: "string \<Rightarrow> string \<Rightarrow> bool" where
  "includes_str [] sub = (sub = [])"
| "includes_str (c # cs) sub = (startsWith (c # cs) sub \<or> includes_str cs sub)"

text \<open>\<open>arr.join(sep)\<close> on an array of strings.\<close>

fun join :: "string \<Rightarrow> string list \<Rightarrow> string" where
  "join sep [] = []"
| "join sep [x] = x"
| "join sep (x # y # ys) = x @ sep @ join sep (y # ys)"

text \<open>
  A number is modelled by the text that \<open>String\<close> gives for it: 42 is \<open>Num ''42''\<close>, 1.5 is
  \<open>Num ''1.5''\<close>, ten to the 21st is \<open>Num ''1e+21''\<close>. The conversion is JavaScript's own;
  the code does nothing with a number but test its \<open>typeof\<close> and turn it into
  text, by \<open>String(n)\<close> or inside a template literal, which give the same text.
\<close>

datatype jsnum = Num (String_num: string)


section \<open>The JSX runtime\<close>

subsection \<open>Values and nodes\<close>

text \<open>
  A property value (\<open>unknown\<close> in the source). \<open>JObj\<close> is an object, given by its
  \<open>Object.entries\<close>; the renderer reads the entries of an object only under the key
  \<open>style\<close>, where the source types them \<open>Record<string, string | number>\<close>. \<open>JFun\<close> is a
  function value (an event handler, say): \<open>typeof\<close> gives \<open>'function'\<close> for it.
\<close>

datatype jsprim = PStr string | PNum jsnum

datatype jsval =
    JUndefined
  | JNull
  | JBool bool
  | JStr string
  | JNum jsnum
  | JObj "(string \<times> jsprim) list"
  | JFun

text \<open>\<open>props: Record<string, unknown>\<close>, as the list \<open>Object.entries(props)\<close> enumerates.\<close>

type_synonym props = "(string \<times> jsval) list"

text \<open>
  \<open>type: string | ComponentType\<close>. A component is a function from its properties and
  children to a node; a function over trees cannot be stored inside the tree type, so a node
  names its component by a number and the functions themselves come in a table
  (\<open>components\<close> below).
\<close>

datatype vtype = Tag string | Component nat

datatype child =
    CStr string
  | CNum jsnum
  | CBool bool
  | CNull
  | CUndefined
  | CVNode vnode
  | CArr "child list"
and vnode = VNode (vnode_type: vtype) (vnode_props: props) (vnode_children: "child list")

text \<open>The table of component functions: \<open>comps f props children\<close> is
  \<open>f({ ...props, children })\<close>.\<close>

type_synonym components = "nat \<Rightarrow> props \<Rightarrow> child list \<Rightarrow> vnode"

text \<open>The argument of \<open>renderToString\<close> and \<open>render\<close>:
  \<open>VNode | string | number | null | undefined\<close>.\<close>

datatype node = NVNode vnode | NStr string | NNum jsnum | NNull | NUndefined

definition VOID_ELEMENTS :: "string set" where
  "VOID_ELEMENTS =
     {''area'', ''base'', ''br'', ''col'', ''embed'', ''hr'', ''img'', ''input'',
      ''link'', ''meta'', ''param'', ''source'', ''track'', ''wbr''}"

definition BOOLEAN_ATTRS :: "string set" where
  "BOOLEAN_ATTRS =
     {''disabled'', ''checked'', ''readonly'', ''required'', ''hidden'',
      ''selected'', ''multiple'', ''autofocus'', ''autoplay'', ''controls'',
      ''loop'', ''muted'', ''open'', ''defer'', ''async''}"

subsection \<open>escapeHtml\<close>

definition escapeHtml :: "string \<Rightarrow> string" where
  \<open>escapeHtml str =
     replaceAll_char (CHR 0x27) ''&#39;''
       (replaceAll_char (CHR ''"'') ''&quot;''
         (replaceAll_char (CHR ''>'') ''&gt;''
           (replaceAll_char (CHR ''<'') ''&lt;''
             (replaceAll_char (CHR ''&'') ''&amp;'' str))))\<close>

subsection \<open>renderAttrs\<close>

text \<open>\<open>k.replace(/([A-Z])/g, '-$1')\<close>: a hyphen goes in front of every letter A to Z.\<close>

fun hyphenate_upper :: "string \<Rightarrow> string" where
  "hyphenate_upper [] = []"
| "hyphenate_upper (c # cs) =
     (if isUpperAZ c then CHR ''-'' # c # hyphenate_upper cs else c # hyphenate_upper cs)"

definition cssKey :: "string \<Rightarrow> string" where
  "cssKey k = toLowerCase (hyphenate_upper k)"

text \<open>A template literal's \<open>${v}\<close> for \<open>v: string | number\<close>.\<close>

fun template_str :: "jsprim \<Rightarrow> string" where
  "template_str (PStr s) = s"
| "template_str (PNum n) = String_num n"

definition styleStr :: "(string \<times> jsprim) list \<Rightarrow> string" where
  "styleStr entries =
     join ''; '' (map (\<lambda>(k, v). cssKey k @ '': '' @ template_str v) entries)"

text \<open>
  The body of the \<open>for\<close> loop of \<open>renderAttrs\<close> for one entry: \<open>Some a\<close> when the
  iteration pushes \<open>a\<close> onto \<open>attrs\<close>, \<open>None\<close> when it pushes nothing (a \<open>continue\<close>, or
  no branch of the \<open>if\<close> chain taken). \<open>attrName_of key\<close> is the constant \<open>attrName\<close>.
\<close>

definition attrName_of :: "string \<Rightarrow> string" where
  "attrName_of key = (if key = ''className'' then ''class'' else key)"

definition renderAttr :: "string \<Rightarrow> jsval \<Rightarrow> string option" where
  \<open>renderAttr key val =
     (if key = ''children'' \<or> key = ''key'' \<or> key = ''ref'' then None
      else if val = JBool False \<or> val = JNull \<or> val = JUndefined then None
      else
        let attrName = attrName_of key in
        if attrName \<in> BOOLEAN_ATTRS \<and> val = JBool True then Some attrName
        else (case val of
                JStr s \<Rightarrow> Some (attrName @ ''="'' @ escapeHtml s @ ''"'')
              | JNum n \<Rightarrow> Some (attrName @ ''="'' @ escapeHtml (String_num n) @ ''"'')
              | JObj entries \<Rightarrow>
                  if attrName = ''style''
                  then Some (''style="'' @ escapeHtml (styleStr entries) @ ''"'')
                  else None
              | _ \<Rightarrow> None))\<close>

text \<open>The loop over \<open>Object.entries(props)\<close>, with the array \<open>attrs\<close> it builds.\<close>

fun renderAttrs_loop :: "props \<Rightarrow> string list \<Rightarrow> string list" where
  "renderAttrs_loop [] attrs = attrs"
| "renderAttrs_loop ((key, val) # rest) attrs =
     renderAttrs_loop rest
       (case renderAttr key val of None \<Rightarrow> attrs | Some a \<Rightarrow> attrs @ [a])"

definition renderAttrs :: "props \<Rightarrow> string" where
  "renderAttrs props =
     (let attrs = renderAttrs_loop props []
      in if length attrs > 0 then '' '' @ join '' '' attrs else '''')"

subsection \<open>renderChildren, renderToString, Fragment, render\<close>

text \<open>
  A component may call itself for ever, so rendering takes fuel: the number of nested
  component calls it may still make. \<open>None\<close> is "not returned within that fuel"; a tree
  without components renders with any fuel. \<open>renderToString_vnode\<close> is \<open>renderToString\<close>
  on a \<open>VNode\<close> (from the destructuring on); \<open>renderChild\<close> is the function mapped over the
  children.
\<close>

fun renderToString_vnode :: "components \<Rightarrow> nat \<Rightarrow> vnode \<Rightarrow> string option"
and renderChildren :: "components \<Rightarrow> nat \<Rightarrow> child list \<Rightarrow> string option"
and renderChild :: "components \<Rightarrow> nat \<Rightarrow> child \<Rightarrow> string option" where
  "renderToString_vnode comps fuel (VNode (Component f) props children) =
     (case fuel of
        0 \<Rightarrow> None
      | Suc fuel' \<Rightarrow> renderToString_vnode comps fuel' (comps f props children))"
| "renderToString_vnode comps fuel (VNode (Tag t) props children) =
     (let attrs = renderAttrs props in
      case renderChildren comps fuel children of
        None \<Rightarrow> None
      | Some childrenHtml \<Rightarrow>
          if t \<in> VOID_ELEMENTS then Some (''<'' @ t @ attrs @ '' />'')
          else Some (''<'' @ t @ attrs @ ''>'' @ childrenHtml @ ''</'' @ t @ ''>''))"
| "renderChildren comps fuel [] = Some []"
| "renderChildren comps fuel (c # cs) =
     (case renderChild comps fuel c of
        None \<Rightarrow> None
      | Some s \<Rightarrow>
          (case renderChildren comps fuel cs of
             None \<Rightarrow> None
           | Some r \<Rightarrow> Some (s @ r)))"
| "renderChild comps fuel CNull = Some []"
| "renderChild comps fuel CUndefined = Some []"
| "renderChild comps fuel (CBool b) = Some []"
| "renderChild comps fuel (CStr s) = Some (escapeHtml s)"
| "renderChild comps fuel (CNum n) = Some (String_num n)"
| "renderChild comps fuel (CArr cs) = renderChildren comps fuel cs"
| "renderChild comps fuel (CVNode v) = renderToString_vnode comps fuel v"

definition renderToString :: "components \<Rightarrow> nat \<Rightarrow> node \<Rightarrow> string option" where
  "renderToString comps fuel n =
     (case n of
        NNull \<Rightarrow> Some []
      | NUndefined \<Rightarrow> Some []
      | NStr s \<Rightarrow> Some (escapeHtml s)
      | NNum k \<Rightarrow> Some (escapeHtml (String_num k))
      | NVNode v \<Rightarrow> renderToString_vnode comps fuel v)"

text \<open>\<open>Fragment(props)\<close>, with \<open>props.children\<close> present or not.\<close>

definition Fragment :: "child list option \<Rightarrow> vnode" where
  "Fragment children =
     VNode (Tag ''fragment'') [] (case children of Some cs \<Rightarrow> cs | None \<Rightarrow> [])"

text \<open>\<open>Fragment\<close> as an entry of the component table: called with
  \<open>{ ...props, children }\<close>, it reads \<open>children\<close> only.\<close>

definition Fragment_component :: "props \<Rightarrow> child list \<Rightarrow> vnode" where
  "Fragment_component props children = Fragment (Some children)"

fun render :: "components \<Rightarrow> nat \<Rightarrow> node \<Rightarrow> string option" where
  "render comps fuel (NVNode (VNode (Tag t) props children)) =
     (if t = ''fragment'' then renderChildren comps fuel children
      else renderToString comps fuel (NVNode (VNode (Tag t) props children)))"
| "render comps fuel n = renderToString comps fuel n"


section \<open>Addresses and message types\<close>

text \<open>\<open>EmailAddress = string | { name: string; email: string }\<close>.\<close>

datatype EmailAddress = Addr string | Named string string

definition formatEmailAddress :: "EmailAddress \<Rightarrow> string" where
  \<open>formatEmailAddress address =
     (case address of
        Addr s \<Rightarrow> s
      | Named name email \<Rightarrow>
          (let name' =
                 (if includes_str name '','' \<or> includes_str name ''"''
                  then ''"'' @ replaceAll_char (CHR ''"'') [CHR 0x5C, CHR ''"''] name @ ''"''
                  else name)
           in name' @ '' <'' @ email @ ''>''))\<close>

text \<open>\<open>EmailAddress | EmailAddress[]\<close>.\<close>

datatype EmailAddresses = One EmailAddress | Many "EmailAddress list"

definition formatEmailAddresses :: "EmailAddresses \<Rightarrow> string" where
  "formatEmailAddresses addresses =
     (let arr = (case addresses of Many as \<Rightarrow> as | One a \<Rightarrow> [a])
      in join '', '' (map formatEmailAddress arr))"

record EmailMeta =
  meta_subject :: "string option"
  meta_from :: "EmailAddress option"
  meta_replyTo :: "EmailAddress option"

text \<open>What a template returns: a \<open>VNode\<close>, or a \<open>TemplateResult\<close> with its \<open>body\<close> and
  optional \<open>meta\<close>. \<open>isTemplateResult\<close> is the test for the second constructor.\<close>

datatype TemplateOutput = BareVNode vnode | TemplateResult vnode "EmailMeta option"

text \<open>\<open>MailerConfig\<close> without its \<open>smtp\<close> part, which only the constructor hands to the
  transport.\<close>

record MailerConfig =
  defaultFrom :: "EmailAddress option"
  subjectPrefix :: "string option"
  subjectSuffix :: "string option"

record 'p EmailOptions =
  opt_to :: EmailAddresses
  opt_subject :: "string option"
  opt_from :: "EmailAddress option"
  opt_cc :: "EmailAddresses option"
  opt_bcc :: "EmailAddresses option"
  opt_replyTo :: "EmailAddress option"
  opt_props :: 'p

record CompiledEmail =
  compiled_html :: string
  compiled_text :: string
  compiled_meta :: "EmailMeta option"

text \<open>The object handed to \<open>transporter.sendMail\<close>, and what it answers.\<close>

record Message =
  msg_from :: "string option"
  msg_to :: string
  msg_cc :: "string option"
  msg_bcc :: "string option"
  msg_replyTo :: "string option"
  msg_subject :: string
  msg_html :: string
  msg_text :: string

record SendResult =
  messageId :: string
  accepted :: "string list"
  rejected :: "string list"

text \<open>\<open>SubjectRequired\<close> is the \<open>Error\<close> thrown by \<open>send\<close> itself; \<open>TransportError\<close> is a
  rejection of \<open>sendMail\<close>, passed on.\<close>

datatype send_error = SubjectRequired | TransportError string


section \<open>The mailer\<close>

definition formatSubject :: "MailerConfig \<Rightarrow> string \<Rightarrow> string" where
  "formatSubject config subject =
     (let prefix = (case subjectPrefix config of Some p \<Rightarrow> p | None \<Rightarrow> []);
          suffix = (case subjectSuffix config of Some x \<Rightarrow> x | None \<Rightarrow> [])
      in prefix @ subject @ suffix)"

abbreviation NL :: string where
  "NL \<equiv> [CHR 0x0A]"

text \<open>The two parts of the template literal of \<open>renderHtml\<close> around \<open>${body}\<close>.\<close>

definition wrapper_head :: string where
  \<open>wrapper_head =
     ''<!DOCTYPE html>'' @ NL @
     ''<html>'' @ NL @
     ''<head>'' @ NL @
     ''  <meta charset="utf-8">'' @ NL @
     ''  <meta name="viewport" content="width=device-width, initial-scale=1.0">'' @ NL @
     ''</head>'' @ NL @
     ''<body>'' @ NL\<close>

definition wrapper_tail :: string where
  "wrapper_tail = NL @ ''</body>'' @ NL @ ''</html>''"

definition renderHtml :: "components \<Rightarrow> nat \<Rightarrow> vnode \<Rightarrow> string option" where
  "renderHtml comps fuel vnode =
     (case render comps fuel (NVNode vnode) of
        None \<Rightarrow> None
      | Some body \<Rightarrow>
          if includes_str (toLowerCase body) ''<html''
          then Some (''<!DOCTYPE html>'' @ NL @ body)
          else Some (wrapper_head @ body @ wrapper_tail))"

text \<open>\<open>renderText\<close> hands the HTML to the external converter \<open>convert\<close> with fixed options;
  the converter is a parameter.\<close>

definition compile ::
  "components \<Rightarrow> nat \<Rightarrow> (string \<Rightarrow> string) \<Rightarrow> ('p \<Rightarrow> TemplateOutput) \<Rightarrow> 'p
     \<Rightarrow> CompiledEmail option" where
  "compile comps fuel convert template props =
     (case template props of
        TemplateResult body m \<Rightarrow>
          (case renderHtml comps fuel body of
             None \<Rightarrow> None
           | Some html \<Rightarrow>
               Some \<lparr>compiled_html = html, compiled_text = convert html, compiled_meta = m\<rparr>)
      | BareVNode v \<Rightarrow>
          (case renderHtml comps fuel v of
             None \<Rightarrow> None
           | Some html \<Rightarrow>
               Some \<lparr>compiled_html = html, compiled_text = convert html,
                     compiled_meta = None\<rparr>))"

text \<open>\<open>a ?? b\<close>, and the truth value of an address in a condition (\<open>x ? ... : undefined\<close>):
  only the empty string is falsy; objects and arrays are truthy.\<close>

definition coalesce :: "'a option \<Rightarrow> 'a option \<Rightarrow> 'a option" where
  "coalesce a b = (case a of Some x \<Rightarrow> Some x | None \<Rightarrow> b)"

definition truthy_address :: "EmailAddress \<Rightarrow> bool" where
  "truthy_address a = (case a of Addr s \<Rightarrow> s \<noteq> [] | Named n e \<Rightarrow> True)"

definition truthy_addresses :: "EmailAddresses \<Rightarrow> bool" where
  "truthy_addresses a = (case a of One x \<Rightarrow> truthy_address x | Many xs \<Rightarrow> True)"

definition format_if_truthy :: "EmailAddress option \<Rightarrow> string option" where
  "format_if_truthy a =
     (case a of
        Some x \<Rightarrow> if truthy_address x then Some (formatEmailAddress x) else None
      | None \<Rightarrow> None)"

definition format_all_if_truthy :: "EmailAddresses option \<Rightarrow> string option" where
  "format_all_if_truthy a =
     (case a of
        Some x \<Rightarrow> if truthy_addresses x then Some (formatEmailAddresses x) else None
      | None \<Rightarrow> None)"

text \<open>
  \<open>send\<close>. The transport is the function \<open>sendMail\<close> (\<open>Inl\<close> when it rejects) together with
  the list \<open>sent\<close> of the messages it has been called with; \<open>send\<close> returns its outcome and
  the new list. The result is \<open>None\<close> when rendering does not return within the fuel.
\<close>

definition send ::
  "components \<Rightarrow> nat \<Rightarrow> (string \<Rightarrow> string) \<Rightarrow> MailerConfig
     \<Rightarrow> (Message \<Rightarrow> string + SendResult) \<Rightarrow> ('p \<Rightarrow> TemplateOutput) \<Rightarrow> 'p EmailOptions
     \<Rightarrow> Message list \<Rightarrow> ((send_error + SendResult) \<times> Message list) option" where
  "send comps fuel convert config sendMail template options sent =
     (case compile comps fuel convert template (opt_props options) of
        None \<Rightarrow> None
      | Some compiled \<Rightarrow>
          let meta = compiled_meta compiled;
              from = coalesce (opt_from options)
                       (coalesce (Option.bind meta meta_from) (defaultFrom config));
              rawSubject = coalesce (opt_subject options) (Option.bind meta meta_subject)
          in (case rawSubject of
                None \<Rightarrow> Some (Inl SubjectRequired, sent)
              | Some raw \<Rightarrow>
                  if raw = [] then Some (Inl SubjectRequired, sent)
                  else
                    let subject = formatSubject config raw;
                        replyTo = coalesce (opt_replyTo options) (Option.bind meta meta_replyTo);
                        message =
                          \<lparr>msg_from = format_if_truthy from,
                           msg_to = formatEmailAddresses (opt_to options),
                           msg_cc = format_all_if_truthy (opt_cc options),
                           msg_bcc = format_all_if_truthy (opt_bcc options),
                           msg_replyTo = format_if_truthy replyTo,
                           msg_subject = subject,
                           msg_html = compiled_html compiled,
                           msg_text = compiled_text compiled\<rparr>
                    in (case sendMail message of
                          Inl e \<Rightarrow> Some (Inl (TransportError e), sent @ [message])
                        | Inr result \<Rightarrow>
                            Some (Inr \<lparr>messageId = messageId result,
                                       accepted = accepted result,
                                       rejected = rejected result\<rparr>,
                                  sent @ [message]))))"

section \<open>Reference functions for the claims\<close>

text \<open>
  The escaping rule in the specification's words: each of the five characters stands for its
  entity, every other character for itself, and the text is escaped in one pass, character
  by character.
\<close>

definition entity :: "char \<Rightarrow> string" where
  \<open>entity c =
     (if c = CHR ''&'' then ''&amp;''
      else if c = CHR ''<'' then ''&lt;''
      else if c = CHR ''>'' then ''&gt;''
      else if c = CHR ''"'' then ''&quot;''
      else if c = CHR 0x27 then ''&#39;''
      else [c])\<close>

definition escape_spec :: "string \<Rightarrow> string" where
  "escape_spec s = concat (map entity s)"

text \<open>
  Lower case by code unit, written with numbers: the units 65 to 90 (A to Z) and 192 to 222
  (215 apart) move 32 places up; every other unit stays.
\<close>

definition lower_ref :: "char \<Rightarrow> char" where
  "lower_ref c =
     (let n = of_char c :: nat
      in if (65 \<le> n \<and> n \<le> 90) \<or> (192 \<le> n \<and> n \<le> 222 \<and> n \<noteq> 215)
         then char_of (n + 32) else c)"

text \<open>
  Kebab case in the specification's words: a hyphen is inserted before each uppercase
  letter (a character that has a small letter of its own), which is lowercased; every
  other character is kept.
\<close>

definition kebab_case :: "string \<Rightarrow> string" where
  "kebab_case k =
     concat (map (\<lambda>c. if lower_ref c \<noteq> c then [CHR ''-'', lower_ref c] else [c]) k)"

text \<open>
  Kebab case as amended: a hyphen is inserted before each of the letters A to Z only, and
  every uppercase letter is lowercased.
\<close>

definition kebab_AZ :: "string \<Rightarrow> string" where
  "kebab_AZ k =
     concat (map (\<lambda>c. if 65 \<le> (of_char c :: nat) \<and> (of_char c :: nat) \<le> 90
                      then [CHR ''-'', lower_ref c] else [lower_ref c]) k)"

text \<open>The text of a style value, and the declarations \<open>prop: value\<close> separated by
  \<open>"; "\<close>.\<close>

definition value_text :: "jsprim \<Rightarrow> string" where
  "value_text v = (case v of PStr s \<Rightarrow> s | PNum (Num t) \<Rightarrow> t)"

fun css_declarations :: "(string \<times> jsprim) list \<Rightarrow> string" where
  "css_declarations [] = []"
| "css_declarations [(k, v)] = kebab_AZ k @ '': '' @ value_text v"
| "css_declarations ((k, v) # e # es) =
     kebab_AZ k @ '': '' @ value_text v @ ''; '' @ css_declarations (e # es)"

text \<open>A tree without component nodes.\<close>

fun static_vnode :: "vnode \<Rightarrow> bool"
and static_children :: "child list \<Rightarrow> bool"
and static_child :: "child \<Rightarrow> bool" where
  "static_vnode (VNode (Component f) props children) = False"
| "static_vnode (VNode (Tag t) props children) = static_children children"
| "static_children [] = True"
| "static_children (c # cs) = (static_child c \<and> static_children cs)"
| "static_child (CVNode v) = static_vnode v"
| "static_child (CArr cs) = static_children cs"
| "static_child (CStr s) = True"
| "static_child (CNum n) = True"
| "static_child (CBool b) = True"
| "static_child CNull = True"
| "static_child CUndefined = True"

text \<open>The number of positions of \<open>s\<close> at which \<open>sub\<close> occurs.\<close>

fun count_occ :: "string \<Rightarrow> string \<Rightarrow> nat" where
  "count_occ sub [] = (if sub = [] then 1 else 0)"
| "count_occ sub (c # cs) = (if startsWith (c # cs) sub then 1 else 0) + count_occ sub cs"

section \<open>Escaping\<close>

lemma replaceAll_char_append:
  "replaceAll_char c r (xs @ ys) = replaceAll_char c r xs @ replaceAll_char c r ys"
  by (induction xs) auto

lemma escapeHtml_append: "escapeHtml (xs @ ys) = escapeHtml xs @ escapeHtml ys"
  by (simp add: escapeHtml_def replaceAll_char_append)

lemma escapeHtml_single: "escapeHtml [c] = entity c"
  by (simp add: escapeHtml_def entity_def)

lemma escapeHtml_Nil: "escapeHtml [] = []"
  by (simp add: escapeHtml_def)

lemma escapeHtml_Cons: "escapeHtml (c # cs) = entity c @ escapeHtml cs"
  using escapeHtml_append [of "[c]" cs] by (simp add: escapeHtml_single)

lemma escapeHtml_concat_entities: "escapeHtml s = escape_spec s"
  by (induction s) (simp_all add: escapeHtml_Nil escapeHtml_Cons escape_spec_def)

section \<open>Attributes\<close>


lemma renderAttrs_loop_append:
  "renderAttrs_loop (ps @ qs) acc = renderAttrs_loop qs (renderAttrs_loop ps acc)"
  by (induction ps arbitrary: acc) auto

lemma renderAttrs_single:
  "renderAttrs [(k, v)] = (case renderAttr k v of None \<Rightarrow> [] | Some a \<Rightarrow> CHR '' '' # a)"
  by (simp add: renderAttrs_def split: option.splits)

lemma renderAttr_dropped:
  "renderAttr k v = None \<Longrightarrow> renderAttrs (ps @ (k, v) # qs) = renderAttrs (ps @ qs)"
  by (simp add: renderAttrs_def renderAttrs_loop_append)


section \<open>Text leaves and attribute values\<close>

text \<open>
  C1. For every string \<open>s\<close>, \<open>escapeHtml s\<close> is \<open>s\<close> with each of the characters
  \<open>& < > " '\<close> replaced by its entity and every other character kept: the five successive
  replacements of the source come to one pass over the input, so that no ampersand written
  by a replacement is escaped again. A string child, a string passed to \<open>render\<close> and a
  string attribute value (under a key that is not \<open>children\<close>, \<open>key\<close> or \<open>ref\<close>) are
  written in exactly this form.
\<close>

theorem escapeHtml_each_char_once:
  \<open>escapeHtml s = escape_spec s
   \<and> renderChildren comps fuel [CStr s] = Some (escape_spec s)
   \<and> render comps fuel (NStr s) = Some (escape_spec s)
   \<and> (key \<notin> {''children'', ''key'', ''ref''} \<longrightarrow>
        renderAttrs [(key, JStr s)]
          = '' '' @ attrName_of key @ ''="'' @ escape_spec s @ ''"'')\<close>
  by (simp add: escapeHtml_concat_entities renderToString_def renderAttrs_single
      renderAttr_def)

theorem escapeHtml_each_char_once_witness:
  \<open>escapeHtml ''a & b &amp; <i>"x"</i>'' = ''a &amp; b &amp;amp; &lt;i&gt;&quot;x&quot;&lt;/i&gt;''
   \<and> renderChildren (\<lambda>f p c. VNode (Tag ''p'') [] []) 0 [CStr ''<<'']
       = Some ''&lt;&lt;''
   \<and> ''title'' \<notin> {''children'', ''key'', ''ref''}
   \<and> renderAttrs [(''title'', JStr [CHR 0x27, CHR ''&''])] = '' title="&#39;&amp;"''\<close>
  using escapeHtml_each_char_once
          [of "''a & b &amp; <i>\"x\"</i>''" "\<lambda>f p c. VNode (Tag ''p'') [] []" 0 "''title''"]
        escapeHtml_each_char_once
          [of "''<<''" "\<lambda>f p c. VNode (Tag ''p'') [] []" 0 "''title''"]
        escapeHtml_each_char_once
          [of "[CHR 0x27, CHR ''&'']" "\<lambda>f p c. VNode (Tag ''p'') [] []" 0 "''title''"]
  by (simp add: escape_spec_def entity_def attrName_of_def)



text \<open>
  C10. A value \<open>true\<close> under a key whose attribute name is not in the boolean-attribute set
  pushes nothing: neither the bare name nor \<open>key="true"\<close> is written, and the attribute
  string, and so the rendered element, is the one of the mapping without that entry.
\<close>

theorem true_outside_boolean_attrs_dropped:
  "attrName_of key \<notin> BOOLEAN_ATTRS \<Longrightarrow>
     renderAttr key (JBool True) = None
     \<and> renderAttrs (ps @ (key, JBool True) # qs) = renderAttrs (ps @ qs)
     \<and> renderToString_vnode comps fuel (VNode (Tag t) (ps @ (key, JBool True) # qs) children)
       = renderToString_vnode comps fuel (VNode (Tag t) (ps @ qs) children)"
proof -
  assume b: "attrName_of key \<notin> BOOLEAN_ATTRS"
  then have n: "renderAttr key (JBool True) = None" by (simp add: renderAttr_def)
  note d = renderAttr_dropped [OF n]
  show ?thesis using n d by simp
qed

theorem true_outside_boolean_attrs_dropped_witness:
  \<open>attrName_of ''draggable'' \<notin> BOOLEAN_ATTRS
   \<and> renderAttr ''draggable'' (JBool True) = None
   \<and> renderAttrs [(''id'', JStr ''a''), (''draggable'', JBool True)] = '' id="a"''
   \<and> renderToString_vnode (\<lambda>f p c. VNode (Tag ''p'') [] []) 0
        (VNode (Tag ''div'') [(''id'', JStr ''a''), (''draggable'', JBool True)] [])
       = Some ''<div id="a"></div>''\<close>
  using true_outside_boolean_attrs_dropped
          [of "''draggable''" "[(''id'', JStr ''a'')]" "[]"
              "\<lambda>f p c. VNode (Tag ''p'') [] []" 0 "''div''" "[]"]
  by (simp add: attrName_of_def BOOLEAN_ATTRS_def renderAttrs_def renderAttr_def
      escapeHtml_def VOID_ELEMENTS_def)

section \<open>Style objects\<close>

lemma chars_checked:
  "\<forall>c. toLowerCase_char c = lower_ref c
       \<and> (isUpperAZ c \<longleftrightarrow> 65 \<le> (of_char c :: nat) \<and> (of_char c :: nat) \<le> 90)
       \<and> (isUpperAZ c \<longrightarrow> lower_ref c \<noteq> c)"
  by code_simp

lemma toLowerCase_char_ref: "toLowerCase_char c = lower_ref c"
  using chars_checked by blast

lemma isUpperAZ_range:
  "isUpperAZ c \<longleftrightarrow> 65 \<le> (of_char c :: nat) \<and> (of_char c :: nat) \<le> 90"
  using chars_checked by blast

lemma lower_ref_upperAZ: "isUpperAZ c \<Longrightarrow> lower_ref c \<noteq> c"
  using chars_checked by blast

lemma lower_ref_hyphen: "lower_ref (CHR ''-'') = CHR ''-''"
  by code_simp

lemma cssKey_Nil: "cssKey [] = []"
  by (simp add: cssKey_def toLowerCase_def)

lemma cssKey_Cons:
  "cssKey (c # cs) =
     (if isUpperAZ c then CHR ''-'' # lower_ref c # cssKey cs else lower_ref c # cssKey cs)"
  by (simp add: cssKey_def toLowerCase_def toLowerCase_char_ref lower_ref_hyphen)

lemma cssKey_kebab_AZ: "cssKey k = kebab_AZ k"
proof (induction k)
  case Nil
  show ?case by (simp add: cssKey_Nil kebab_AZ_def)
next
  case (Cons c cs)
  have "kebab_AZ (c # cs) =
          (if isUpperAZ c then CHR ''-'' # lower_ref c # kebab_AZ cs
           else lower_ref c # kebab_AZ cs)"
    by (simp add: kebab_AZ_def isUpperAZ_range)
  with Cons show ?case by (simp add: cssKey_Cons)
qed

lemma kebab_AZ_kebab_case:
  assumes "\<forall>c\<in>set k. lower_ref c \<noteq> c \<longrightarrow> isUpperAZ c"
  shows "kebab_AZ k = kebab_case k"
  using assms
proof (induction k)
  case Nil
  show ?case by (simp add: kebab_AZ_def kebab_case_def)
next
  case (Cons c cs)
  then have IH: "kebab_AZ cs = kebab_case cs" by simp
  have a: "kebab_AZ (c # cs) =
          (if isUpperAZ c then [CHR ''-'', lower_ref c] else [lower_ref c]) @ kebab_AZ cs"
    by (simp add: kebab_AZ_def isUpperAZ_range)
  have b: "kebab_case (c # cs) =
          (if lower_ref c \<noteq> c then [CHR ''-'', lower_ref c] else [c]) @ kebab_case cs"
    by (simp add: kebab_case_def)
  show ?case
  proof (cases "isUpperAZ c")
    case True
    with lower_ref_upperAZ [OF True] a b IH show ?thesis by simp
  next
    case False
    with Cons.prems have "lower_ref c = c" by auto
    with False a b IH show ?thesis by simp
  qed
qed

lemma template_str_value_text: "template_str v = value_text v"
proof (cases v)
  case (PStr s)
  then show ?thesis by (simp add: value_text_def)
next
  case (PNum n)
  then show ?thesis by (cases n) (simp add: value_text_def)
qed

lemma styleStr_css_declarations: "styleStr entries = css_declarations entries"
proof (induction entries rule: css_declarations.induct)
  case 1
  show ?case by (simp add: styleStr_def)
next
  case (2 k v)
  show ?case by (simp add: styleStr_def cssKey_kebab_AZ template_str_value_text)
next
  case (3 k v e es)
  then have "join ''; '' (map (\<lambda>(k, v). cssKey k @ '': '' @ template_str v) (e # es))
               = css_declarations (e # es)"
    by (simp add: styleStr_def)
  then show ?case
    by (cases e) (simp add: styleStr_def cssKey_kebab_AZ template_str_value_text)
qed

lemma style_not_boolean: "''style'' \<notin> BOOLEAN_ATTRS"
  by (simp add: BOOLEAN_ATTRS_def)

lemma renderAttr_style:
  \<open>renderAttr ''style'' (JObj entries)
     = Some (''style="'' @ escapeHtml (styleStr entries) @ ''"'')\<close>
  by (simp add: renderAttr_def attrName_of_def style_not_boolean)

lemma renderAttrs_style_example:
  \<open>renderAttrs
      [(''style'', JObj [(''backgroundColor'', PStr ''red''), (''fontSize'', PStr ''16px'')])]
     = '' style="background-color: red; font-size: 16px"''\<close>
  by code_simp

text \<open>
  C8, as the code has it. Under the key \<open>style\<close>, an object value is written as
  \<open>style="..."\<close>, where the quoted text is the HTML-escaped (each of \<open>& < > " '\<close> as its
  entity, in one pass) sequence of the entries separated by \<open>"; "\<close>, each written
  \<open>prop: value\<close>; a number value is written as \<open>String\<close> writes it. The property name gets
  a hyphen before each of the letters A to Z only, and all its uppercase letters are
  lowercased. For a name whose uppercase letters are all among A to Z this is kebab case
  as the specification words it. The object \<open>{backgroundColor: 'red', fontSize: '16px'}\<close>
  gives \<open>style="background-color: red; font-size: 16px"\<close>.
\<close>

theorem style_object_flattened:
  \<open>renderAttr ''style'' (JObj entries)
     = Some (''style="'' @ escape_spec (css_declarations entries) @ ''"'')
   \<and> renderAttrs [(''style'', JObj entries)]
       = '' style="'' @ escape_spec (css_declarations entries) @ ''"''
   \<and> ((\<forall>c\<in>set k. lower_ref c \<noteq> c \<longrightarrow> 65 \<le> (of_char c :: nat) \<and> (of_char c :: nat) \<le> 90)
        \<longrightarrow> cssKey k = kebab_case k)
   \<and> renderAttrs
         [(''style'', JObj [(''backgroundColor'', PStr ''red''), (''fontSize'', PStr ''16px'')])]
       = '' style="background-color: red; font-size: 16px"''\<close>
proof (intro conjI impI)
  show r: \<open>renderAttr ''style'' (JObj entries)
     = Some (''style="'' @ escape_spec (css_declarations entries) @ ''"'')\<close>
    by (simp only: renderAttr_style styleStr_css_declarations escapeHtml_concat_entities)
  show \<open>renderAttrs [(''style'', JObj entries)]
       = '' style="'' @ escape_spec (css_declarations entries) @ ''"''\<close>
    by (simp add: renderAttrs_single r)
next
  assume "\<forall>c\<in>set k. lower_ref c \<noteq> c \<longrightarrow> 65 \<le> (of_char c :: nat) \<and> (of_char c :: nat) \<le> 90"
  then have "\<forall>c\<in>set k. lower_ref c \<noteq> c \<longrightarrow> isUpperAZ c"
    by (simp add: isUpperAZ_range)
  then have "kebab_AZ k = kebab_case k" by (rule kebab_AZ_kebab_case)
  then show "cssKey k = kebab_case k" by (simp add: cssKey_kebab_AZ)
next
  show \<open>renderAttrs
         [(''style'', JObj [(''backgroundColor'', PStr ''red''), (''fontSize'', PStr ''16px'')])]
       = '' style="background-color: red; font-size: 16px"''\<close>
    by (rule renderAttrs_style_example)
qed

theorem style_object_flattened_witness:
  \<open>cssKey ''backgroundColor'' = ''background-color''
   \<and> kebab_case ''backgroundColor'' = ''background-color''
   \<and> renderAttrs
        [(''style'', JObj [(''lineHeight'', PNum (Num ''1.5'')), (''content'', PStr ''"a" & b'')])]
       = '' style="line-height: 1.5; content: &quot;a&quot; &amp; b"''\<close>
proof -
  have h: "\<forall>c\<in>set ''backgroundColor''.
             lower_ref c \<noteq> c \<longrightarrow> 65 \<le> (of_char c :: nat) \<and> (of_char c :: nat) \<le> 90"
    by code_simp
  have k: "kebab_case ''backgroundColor'' = ''background-color''"
    by code_simp
  have d: \<open>escape_spec
             (css_declarations [(''lineHeight'', PNum (Num ''1.5'')), (''content'', PStr ''"a" & b'')])
           = ''line-height: 1.5; content: &quot;a&quot; &amp; b''\<close>
    by code_simp
  from style_object_flattened
         [where k = "''backgroundColor''"
            and entries = "[(''lineHeight'', PNum (Num ''1.5'')), (''content'', PStr ''\"a\" & b'')]"]
       h k d
  show ?thesis by simp
qed

theorem style_key_latin_capital_counterexample:
  \<open>renderAttrs [(''style'', JObj [([CHR 0xC9, CHR ''a''], PStr ''x'')])]
     = '' style="'' @ [CHR 0xE9] @ ''a: x"''
   \<and> kebab_case [CHR 0xC9, CHR ''a''] = [CHR ''-'', CHR 0xE9, CHR ''a'']\<close>
  by code_simp

section \<open>Rendering and fuel\<close>

lemma renderToString_vnode_Tag:
  "renderToString_vnode comps fuel (VNode (Tag t) props children) =
     (case renderChildren comps fuel children of
        None \<Rightarrow> None
      | Some childrenHtml \<Rightarrow>
          Some (if t \<in> VOID_ELEMENTS then ''<'' @ t @ renderAttrs props @ '' />''
                else ''<'' @ t @ renderAttrs props @ ''>'' @ childrenHtml @ ''</'' @ t @ ''>''))"
  by (simp add: Let_def split: option.splits)

lemma static_renders:
  "static_vnode v \<Longrightarrow> renderToString_vnode comps fuel v \<noteq> None"
  "static_children cs \<Longrightarrow> renderChildren comps fuel cs \<noteq> None"
  "static_child c \<Longrightarrow> renderChild comps fuel c \<noteq> None"
proof (induction v and cs and c rule: static_vnode_static_children_static_child.induct)
  case (2 t props children)
  then show ?case
    by (simp add: renderToString_vnode_Tag del: renderToString_vnode.simps
        split: option.splits)
next
  case (4 c cs)
  then obtain a b
    where "renderChild comps fuel c = Some a" "renderChildren comps fuel cs = Some b"
    by auto
  then show ?case by simp
qed simp_all

lemma render_fuel_mono:
  "renderToString_vnode comps fuel v = Some s \<longrightarrow>
     (\<forall>fuel'. fuel \<le> fuel' \<longrightarrow> renderToString_vnode comps fuel' v = Some s)"
  "renderChildren comps fuel cs = Some s \<longrightarrow>
     (\<forall>fuel'. fuel \<le> fuel' \<longrightarrow> renderChildren comps fuel' cs = Some s)"
  "renderChild comps fuel c = Some s \<longrightarrow>
     (\<forall>fuel'. fuel \<le> fuel' \<longrightarrow> renderChild comps fuel' c = Some s)"
proof (induction comps fuel v and comps fuel cs and comps fuel c arbitrary: s and s and s
       rule: renderToString_vnode_renderChildren_renderChild.induct)
  case (1 comps fuel f props children)
  show ?case
  proof (intro impI allI)
    fix fuel'
    assume r: "renderToString_vnode comps fuel (VNode (Component f) props children) = Some s"
       and le: "fuel \<le> fuel'"
    from r obtain n where n: "fuel = Suc n"
      and rn: "renderToString_vnode comps n (comps f props children) = Some s"
      by (cases fuel) auto
    from le n obtain n' where n': "fuel' = Suc n'" and le': "n \<le> n'"
      by (cases fuel') auto
    from "1.IH" [OF n] rn le'
    have "renderToString_vnode comps n' (comps f props children) = Some s"
      by blast
    then show "renderToString_vnode comps fuel' (VNode (Component f) props children) = Some s"
      by (simp add: n')
  qed
next
  case (2 comps fuel t props children)
  show ?case
  proof (intro impI allI)
    fix fuel'
    assume r: "renderToString_vnode comps fuel (VNode (Tag t) props children) = Some s"
       and le: "fuel \<le> fuel'"
    from r obtain h where h: "renderChildren comps fuel children = Some h"
      by (auto simp: renderToString_vnode_Tag simp del: renderToString_vnode.simps
          split: option.splits)
    with "2.IH" le have h': "renderChildren comps fuel' children = Some h" by blast
    from r h h' show "renderToString_vnode comps fuel' (VNode (Tag t) props children) = Some s"
      by (simp add: renderToString_vnode_Tag del: renderToString_vnode.simps)
  qed
next
  case (4 comps fuel c cs)
  show ?case
  proof (intro impI allI)
    fix fuel'
    assume r: "renderChildren comps fuel (c # cs) = Some s" and le: "fuel \<le> fuel'"
    from r obtain a b where a: "renderChild comps fuel c = Some a"
      and b: "renderChildren comps fuel cs = Some b" and s: "s = a @ b"
      by (auto split: option.splits)
    from "4.IH"(1) a le have a': "renderChild comps fuel' c = Some a" by blast
    from "4.IH"(2) [OF a] b le have b': "renderChildren comps fuel' cs = Some b" by blast
    from a' b' s show "renderChildren comps fuel' (c # cs) = Some s" by simp
  qed
next
  case (10 comps fuel cs)
  show ?case unfolding renderChild.simps by (rule "10.IH")
next
  case (11 comps fuel v)
  show ?case unfolding renderChild.simps by (rule "11.IH")
qed simp_all

lemma render_mono:
  assumes r: "render comps fuel n = Some s" and le: "fuel \<le> fuel'"
  shows "render comps fuel' n = Some s"
proof (cases n)
  case (NVNode v)
  obtain ty props children where v: "v = VNode ty props children" by (cases v)
  show ?thesis
  proof (cases ty)
    case (Tag t)
    show ?thesis
    proof (cases "t = ''fragment''")
      case True
      with r NVNode v Tag have "renderChildren comps fuel children = Some s" by simp
      with render_fuel_mono(2) le have "renderChildren comps fuel' children = Some s" by blast
      with True NVNode v Tag show ?thesis by simp
    next
      case False
      with r NVNode v Tag
      have "renderToString_vnode comps fuel (VNode (Tag t) props children) = Some s"
        by (simp add: renderToString_def del: renderToString_vnode.simps)
      with render_fuel_mono(1) le
      have "renderToString_vnode comps fuel' (VNode (Tag t) props children) = Some s" by blast
      with False NVNode v Tag show ?thesis
        by (simp add: renderToString_def del: renderToString_vnode.simps)
    qed
  next
    case (Component f)
    with r NVNode v
    have "renderToString_vnode comps fuel (VNode (Component f) props children) = Some s"
      by (simp add: renderToString_def del: renderToString_vnode.simps)
    with render_fuel_mono(1) le
    have "renderToString_vnode comps fuel' (VNode (Component f) props children) = Some s"
      by blast
    with NVNode v Component show ?thesis
      by (simp add: renderToString_def del: renderToString_vnode.simps)
  qed
qed (use r in \<open>simp_all add: renderToString_def\<close>)

lemma render_fuel_independent:
  "render comps fuel1 n = Some s1 \<Longrightarrow> render comps fuel2 n = Some s2 \<Longrightarrow> s1 = s2"
proof -
  assume r1: "render comps fuel1 n = Some s1"
    and r2: "render comps fuel2 n = Some s2"
  have "render comps (max fuel1 fuel2) n = Some s1"
    by (rule render_mono [OF r1]) simp
  moreover have "render comps (max fuel1 fuel2) n = Some s2"
    by (rule render_mono [OF r2]) simp
  ultimately show "s1 = s2" by simp
qed

text \<open>
  C5. An element whose tag is in the void-element set is written \<open><tag ATTRS />\<close>: its
  children are rendered (so they must return) but their text is dropped, and no closing tag
  is written; children without components always return. An element with another tag
  whose children render to nothing, an empty child list in particular, is written
  \<open><tag ATTRS></tag>\<close>. \<open>render\<close> is \<open>renderToString\<close> on every tag but \<open>fragment\<close>.
\<close>

theorem void_elements_self_closing:
  "(t \<in> VOID_ELEMENTS \<longrightarrow> renderChildren comps fuel children \<noteq> None \<longrightarrow>
      renderToString comps fuel (NVNode (VNode (Tag t) props children))
        = Some (''<'' @ t @ renderAttrs props @ '' />''))
   \<and> (t \<in> VOID_ELEMENTS \<longrightarrow> static_children children \<longrightarrow>
        renderToString comps fuel (NVNode (VNode (Tag t) props children))
          = Some (''<'' @ t @ renderAttrs props @ '' />''))
   \<and> (t \<notin> VOID_ELEMENTS \<longrightarrow> renderChildren comps fuel children = Some [] \<longrightarrow>
        renderToString comps fuel (NVNode (VNode (Tag t) props children))
          = Some (''<'' @ t @ renderAttrs props @ ''></'' @ t @ ''>''))
   \<and> (t \<notin> VOID_ELEMENTS \<longrightarrow>
        renderToString comps fuel (NVNode (VNode (Tag t) props []))
          = Some (''<'' @ t @ renderAttrs props @ ''></'' @ t @ ''>''))
   \<and> (t \<noteq> ''fragment'' \<longrightarrow>
        render comps fuel (NVNode (VNode (Tag t) props children))
          = renderToString comps fuel (NVNode (VNode (Tag t) props children)))"
proof (intro conjI impI)
  assume t: "t \<in> VOID_ELEMENTS" and c: "renderChildren comps fuel children \<noteq> None"
  then show "renderToString comps fuel (NVNode (VNode (Tag t) props children))
        = Some (''<'' @ t @ renderAttrs props @ '' />'')"
    by (auto simp: renderToString_def renderToString_vnode_Tag
        simp del: renderToString_vnode.simps)
next
  assume t: "t \<in> VOID_ELEMENTS" and c: "static_children children"
  from static_renders(2) [OF c] have "renderChildren comps fuel children \<noteq> None" .
  with t show "renderToString comps fuel (NVNode (VNode (Tag t) props children))
        = Some (''<'' @ t @ renderAttrs props @ '' />'')"
    by (auto simp: renderToString_def renderToString_vnode_Tag
        simp del: renderToString_vnode.simps)
next
  assume "t \<notin> VOID_ELEMENTS" and "renderChildren comps fuel children = Some []"
  then show "renderToString comps fuel (NVNode (VNode (Tag t) props children))
          = Some (''<'' @ t @ renderAttrs props @ ''></'' @ t @ ''>'')"
    by (simp add: renderToString_def renderToString_vnode_Tag
        del: renderToString_vnode.simps)
next
  assume "t \<notin> VOID_ELEMENTS"
  then show "renderToString comps fuel (NVNode (VNode (Tag t) props []))
          = Some (''<'' @ t @ renderAttrs props @ ''></'' @ t @ ''>'')"
    by (simp add: renderToString_def renderToString_vnode_Tag
        del: renderToString_vnode.simps)
next
  assume "t \<noteq> ''fragment''"
  then show "render comps fuel (NVNode (VNode (Tag t) props children))
          = renderToString comps fuel (NVNode (VNode (Tag t) props children))"
    by simp
qed

theorem void_elements_self_closing_witness:
  \<open>''img'' \<in> VOID_ELEMENTS
   \<and> static_children [CStr ''dropped'', CVNode (VNode (Tag ''b'') [] [])]
   \<and> renderToString (\<lambda>f p c. VNode (Tag ''p'') p c) 0
        (NVNode (VNode (Tag ''img'') [(''src'', JStr ''test.png''), (''alt'', JStr ''Test'')]
           [CStr ''dropped'', CVNode (VNode (Tag ''b'') [] [])]))
       = Some ''<img src="test.png" alt="Test" />''
   \<and> ''div'' \<notin> VOID_ELEMENTS
   \<and> renderToString (\<lambda>f p c. VNode (Tag ''p'') p c) 0
        (NVNode (VNode (Tag ''div'') [(''className'', JStr ''container'')] []))
       = Some ''<div class="container"></div>''
   \<and> render (\<lambda>f p c. VNode (Tag ''p'') p c) 0 (NVNode (VNode (Tag ''br'') [] []))
       = Some ''<br />''\<close>
proof -
  let ?comps = "\<lambda>(f::nat) p c. VNode (Tag ''p'') p c"
  have v: "''img'' \<in> VOID_ELEMENTS" "''br'' \<in> VOID_ELEMENTS" "''div'' \<notin> VOID_ELEMENTS"
    by (simp_all add: VOID_ELEMENTS_def)
  have s: "static_children [CStr ''dropped'', CVNode (VNode (Tag ''b'') [] [])]"
    by simp
  have a1: \<open>renderAttrs [(''src'', JStr ''test.png''), (''alt'', JStr ''Test'')]
              = '' src="test.png" alt="Test"''\<close>
    by code_simp
  have a2: \<open>renderAttrs [(''className'', JStr ''container'')] = '' class="container"''\<close>
    by code_simp
  have a3: "renderAttrs [] = []"
    by code_simp
  show ?thesis
    using v s
      void_elements_self_closing
        [of "''img''" ?comps 0 "[CStr ''dropped'', CVNode (VNode (Tag ''b'') [] [])]"
            "[(''src'', JStr ''test.png''), (''alt'', JStr ''Test'')]"]
      void_elements_self_closing
        [of "''div''" ?comps 0 "[]" "[(''className'', JStr ''container'')]"]
      void_elements_self_closing [of "''br''" ?comps 0 "[]" "[]"]
    by (simp add: a1 a2 a3 del: renderToString_vnode.simps static_children.simps
        static_child.simps)
qed

text \<open>
  C2 (evaluation of the code). A node made by \<open>Fragment\<close> and handed to \<open>render\<close> itself is
  written as its children alone. The same node as a child of an element, and a node whose
  type is the component \<open>Fragment\<close> (what the JSX factory makes), go through
  \<open>renderToString\<close> and are written as an element named \<open>fragment\<close>.
\<close>

theorem fragment_wrapper_below_top_level:
  \<open>render comps fuel (NVNode (Fragment (Some children))) = renderChildren comps fuel children
   \<and> render (\<lambda>f. Fragment_component) 0
        (NVNode (Fragment (Some [CVNode (VNode (Tag ''a'') [] []),
                                 CVNode (VNode (Tag ''b'') [] [])])))
       = Some ''<a></a><b></b>''
   \<and> render (\<lambda>f. Fragment_component) 0
        (NVNode (VNode (Tag ''div'') []
           [CVNode (Fragment (Some [CVNode (VNode (Tag ''a'') [] []),
                                    CVNode (VNode (Tag ''b'') [] [])]))]))
       = Some ''<div><fragment><a></a><b></b></fragment></div>''
   \<and> render (\<lambda>f. Fragment_component) 1
        (NVNode (VNode (Component 0) [(''key'', JUndefined)]
           [CVNode (VNode (Tag ''a'') [] []), CVNode (VNode (Tag ''b'') [] [])]))
       = Some ''<fragment><a></a><b></b></fragment>''\<close>
proof (intro conjI)
  show "render comps fuel (NVNode (Fragment (Some children))) = renderChildren comps fuel children"
    by (simp add: Fragment_def)
qed code_simp+

section \<open>Addresses\<close>

lemma includes_str_char: "includes_str s [c] \<longleftrightarrow> c \<in> set s"
  by (induction s) auto

lemma replaceAll_char_concat:
  "replaceAll_char c r s = concat (map (\<lambda>x. if x = c then r else [x]) s)"
  by (induction s) auto

lemma join_append:
  "xs \<noteq> [] \<Longrightarrow> ys \<noteq> [] \<Longrightarrow> join sep (xs @ ys) = join sep xs @ sep @ join sep ys"
proof (induction sep xs rule: join.induct)
  case (2 sep x)
  then show ?case by (cases ys) simp_all
qed simp_all

text \<open>
  C6. A bare address is left as it is. A structured address is written \<open>name <email>\<close>,
  the name put in double quotes, each of its double quotes written \<open>\"\<close>, exactly when it
  holds a comma or a double quote. A single address given where a sequence may stand is
  formatted alone; a sequence is the formatted members, in order and with repetitions,
  separated by \<open>", "\<close>; the empty sequence gives the empty string.
\<close>

theorem formatEmailAddress_quoting_and_join:
  \<open>formatEmailAddress (Addr s) = s
   \<and> formatEmailAddress (Named name email)
       = (if CHR '','' \<in> set name \<or> CHR ''"'' \<in> set name
          then ''"'' @ concat (map (\<lambda>c. if c = CHR ''"'' then [CHR 0x5C, CHR ''"''] else [c]) name)
               @ ''"''
          else name) @ '' <'' @ email @ ''>''
   \<and> formatEmailAddresses (One a) = formatEmailAddress a
   \<and> formatEmailAddresses (Many []) = []
   \<and> formatEmailAddresses (Many [a]) = formatEmailAddress a
   \<and> formatEmailAddresses (Many (a # b # rest))
       = formatEmailAddress a @ '', '' @ formatEmailAddresses (Many (b # rest))
   \<and> (xs \<noteq> [] \<and> ys \<noteq> [] \<longrightarrow>
        formatEmailAddresses (Many (xs @ ys))
          = formatEmailAddresses (Many xs) @ '', '' @ formatEmailAddresses (Many ys))\<close>
  by (simp add: formatEmailAddress_def formatEmailAddresses_def includes_str_char
      replaceAll_char_concat join_append)

theorem formatEmailAddress_quoting_and_join_witness:
  \<open>formatEmailAddress (Named ''Doe, John'' ''j@x.com'') = ''"Doe, John" <j@x.com>''
   \<and> formatEmailAddress (Named ''A "B" C'' ''a@x.com'')
       = ''"A '' @ [CHR 0x5C] @ ''"B'' @ [CHR 0x5C] @ ''" C" <a@x.com>''
   \<and> formatEmailAddress (Named ''Support Team'' ''s@x.com'') = ''Support Team <s@x.com>''
   \<and> formatEmailAddresses
        (Many ([Named ''Alice'' ''a@x'', Addr ''c@x''] @ [Named ''Bob'' ''b@x'', Addr ''c@x'']))
       = ''Alice <a@x>, c@x, Bob <b@x>, c@x''\<close>
  using formatEmailAddress_quoting_and_join
          [where name = "''Doe, John''" and email = "''j@x.com''"
             and xs = "[Named ''Alice'' ''a@x'', Addr ''c@x'']"
             and ys = "[Named ''Bob'' ''b@x'', Addr ''c@x'']"]
        formatEmailAddress_quoting_and_join
          [where name = "''A \"B\" C''" and email = "''a@x.com''"]
        formatEmailAddress_quoting_and_join
          [where name = "''Support Team''" and email = "''s@x.com''"]
  by (simp add: formatEmailAddresses_def formatEmailAddress_def)

section \<open>Compiling to a document\<close>

lemma startsWith_append_sep:
  "c \<notin> set sub \<Longrightarrow> startsWith (xs @ c # ys) sub = startsWith xs sub"
proof (induction xs arbitrary: sub)
  case Nil
  then show ?case by (cases sub) auto
next
  case (Cons x xs)
  then show ?case by (cases sub) auto
qed

lemma count_occ_append_sep:
  "sub \<noteq> [] \<Longrightarrow> c \<notin> set sub \<Longrightarrow>
     count_occ sub (xs @ c # ys) = count_occ sub xs + count_occ sub (c # ys)"
proof (induction xs)
  case Nil
  then show ?case by simp
next
  case (Cons x xs)
  have "startsWith ((x # xs) @ c # ys) sub = startsWith (x # xs) sub"
    by (rule startsWith_append_sep [OF Cons.prems(2)])
  with Cons show ?case by simp
qed

lemma count_occ_suffix: "count_occ sub ys \<le> count_occ sub (xs @ ys)"
  by (induction xs) auto

lemma startsWith_map: "startsWith s sub \<Longrightarrow> startsWith (map f s) (map f sub)"
  by (induction s sub rule: startsWith.induct) auto

lemma includes_str_map: "includes_str s sub \<Longrightarrow> includes_str (map f s) (map f sub)"
  by (induction s) (auto dest: startsWith_map)

lemma count_occ_none: "\<not> includes_str s sub \<Longrightarrow> count_occ sub s = 0"
  by (induction s) auto

lemma count_occ_some: "includes_str s sub \<Longrightarrow> 1 \<le> count_occ sub s"
  by (induction s) auto

lemma toLowerCase_html: "toLowerCase ''<html'' = ''<html''"
  by code_simp

lemma includes_html_lower:
  "includes_str body ''<html'' \<Longrightarrow> includes_str (toLowerCase body) ''<html''"
  using includes_str_map [of body "''<html''" toLowerCase_char] toLowerCase_html
  by (simp add: toLowerCase_def)

lemma count_occ_doctype:
  "count_occ ''<html'' (''<!DOCTYPE html>'' @ NL @ body) = count_occ ''<html'' body"
proof -
  have "count_occ ''<html'' (''<!DOCTYPE html>'' @ CHR 0x0A # body)
          = count_occ ''<html'' ''<!DOCTYPE html>'' + count_occ ''<html'' (CHR 0x0A # body)"
    by (rule count_occ_append_sep) simp_all
  moreover have "count_occ ''<html'' ''<!DOCTYPE html>'' = 0" by code_simp
  ultimately show ?thesis by simp
qed

lemma count_occ_wrapper:
  assumes "count_occ ''<html'' body = 0"
  shows "count_occ ''<html'' (wrapper_head @ body @ wrapper_tail) = 1"
proof -
  let ?H = \<open>''<!DOCTYPE html>'' @ NL @ ''<html>'' @ NL @ ''<head>'' @ NL @
     ''  <meta charset="utf-8">'' @ NL @
     ''  <meta name="viewport" content="width=device-width, initial-scale=1.0">'' @ NL @
     ''</head>'' @ NL @ ''<body>''\<close>
  let ?T = "''</body>'' @ NL @ ''</html>''"
  have split: "wrapper_head @ body @ wrapper_tail = ?H @ CHR 0x0A # (body @ CHR 0x0A # ?T)"
    by (simp add: wrapper_head_def wrapper_tail_def)
  have h: "count_occ ''<html'' ?H = 1" by code_simp
  have t: "count_occ ''<html'' (CHR 0x0A # ?T) = 0" by code_simp
  have "count_occ ''<html'' (?H @ CHR 0x0A # (body @ CHR 0x0A # ?T))
          = count_occ ''<html'' ?H + count_occ ''<html'' (CHR 0x0A # (body @ CHR 0x0A # ?T))"
    by (rule count_occ_append_sep) simp_all
  moreover have "count_occ ''<html'' (CHR 0x0A # (body @ CHR 0x0A # ?T))
          = count_occ ''<html'' (body @ CHR 0x0A # ?T)"
    by simp
  moreover have "count_occ ''<html'' (body @ CHR 0x0A # ?T)
          = count_occ ''<html'' body + count_occ ''<html'' (CHR 0x0A # ?T)"
    by (rule count_occ_append_sep) simp_all
  ultimately show ?thesis using h t assms by (simp only: split)
qed

lemma startsWith_prefix: "startsWith (p @ s) p"
  by (induction p) auto

text \<open>
  C4, as the code has it. Whenever the body renders, the compiled HTML begins with
  \<open><!DOCTYPE html>\<close> and a newline. If the lowercased body holds \<open><html\<close>, the doctype
  line is followed by the body as it is, and the output holds \<open><html\<close> as many times as
  the body does (once or more, letter case aside); no wrapper is added. Otherwise the body
  stands inside the fixed wrapper and the output holds \<open><html\<close> exactly once.
\<close>

theorem renderHtml_doctype_and_wrapper:
  assumes "render comps fuel (NVNode vnode) = Some body"
  shows "\<exists>out. renderHtml comps fuel vnode = Some out
           \<and> startsWith out (''<!DOCTYPE html>'' @ NL)
           \<and> (includes_str (toLowerCase body) ''<html'' \<longrightarrow>
                out = ''<!DOCTYPE html>'' @ NL @ body
                \<and> count_occ ''<html'' out = count_occ ''<html'' body
                \<and> 1 \<le> count_occ ''<html'' (toLowerCase out))
           \<and> (\<not> includes_str (toLowerCase body) ''<html'' \<longrightarrow>
                out = wrapper_head @ body @ wrapper_tail
                \<and> count_occ ''<html'' out = 1)"
proof (cases "includes_str (toLowerCase body) ''<html''")
  case True
  let ?out = "''<!DOCTYPE html>'' @ NL @ body"
  have r: "renderHtml comps fuel vnode = Some ?out"
    using assms True by (simp add: renderHtml_def)
  have s: "startsWith ?out (''<!DOCTYPE html>'' @ NL)"
    using startsWith_prefix [of "''<!DOCTYPE html>'' @ NL" body] by simp
  have "1 \<le> count_occ ''<html'' (toLowerCase body)"
    by (rule count_occ_some [OF True])
  also have "\<dots> \<le> count_occ ''<html'' (toLowerCase (''<!DOCTYPE html>'' @ NL) @ toLowerCase body)"
    by (rule count_occ_suffix)
  finally have l: "1 \<le> count_occ ''<html'' (toLowerCase ?out)"
    by (simp add: toLowerCase_def)
  from r s l True count_occ_doctype [of body] show ?thesis by simp
next
  case False
  let ?out = "wrapper_head @ body @ wrapper_tail"
  have r: "renderHtml comps fuel vnode = Some ?out"
    using assms False by (simp add: renderHtml_def)
  have s: "startsWith ?out (''<!DOCTYPE html>'' @ NL)"
    using startsWith_prefix [of "''<!DOCTYPE html>'' @ NL"] by (simp add: wrapper_head_def)
  from False have "\<not> includes_str body ''<html''"
    using includes_html_lower by blast
  then have "count_occ ''<html'' body = 0" by (rule count_occ_none)
  then have c: "count_occ ''<html'' ?out = 1" by (rule count_occ_wrapper)
  from r s c False show ?thesis by simp
qed

theorem renderHtml_doctype_and_wrapper_witness:
  \<open>render (\<lambda>f p c. VNode (Tag ''p'') p c) 0 (NVNode (VNode (Tag ''p'') [] [CStr ''Test'']))
     = Some ''<p>Test</p>''
   \<and> renderHtml (\<lambda>f p c. VNode (Tag ''p'') p c) 0 (VNode (Tag ''p'') [] [CStr ''Test''])
       = Some (wrapper_head @ ''<p>Test</p>'' @ wrapper_tail)
   \<and> count_occ ''<html'' (wrapper_head @ ''<p>Test</p>'' @ wrapper_tail) = 1
   \<and> renderHtml (\<lambda>f p c. VNode (Tag ''p'') p c) 0
        (VNode (Tag ''html'') [] [CVNode (VNode (Tag ''body'') [] [CStr ''Content''])])
       = Some (''<!DOCTYPE html>'' @ NL @ ''<html><body>Content</body></html>'')\<close>
proof -
  let ?comps = "\<lambda>(f::nat) p c. VNode (Tag ''p'') p c"
  let ?p = "VNode (Tag ''p'') [] [CStr ''Test'']"
  let ?h = "VNode (Tag ''html'') [] [CVNode (VNode (Tag ''body'') [] [CStr ''Content''])]"
  have r1: "render ?comps 0 (NVNode ?p) = Some ''<p>Test</p>''"
    by code_simp
  have n1: "\<not> includes_str (toLowerCase ''<p>Test</p>'') ''<html''"
    by code_simp
  have r2: "render ?comps 0 (NVNode ?h) = Some ''<html><body>Content</body></html>''"
    by code_simp
  have n2: "includes_str (toLowerCase ''<html><body>Content</body></html>'') ''<html''"
    by code_simp
  from renderHtml_doctype_and_wrapper [OF r1] n1
  have w1: "renderHtml ?comps 0 ?p = Some (wrapper_head @ ''<p>Test</p>'' @ wrapper_tail)"
    and c1: "count_occ ''<html'' (wrapper_head @ ''<p>Test</p>'' @ wrapper_tail) = 1"
    by auto
  from renderHtml_doctype_and_wrapper [OF r2] n2
  have w2: "renderHtml ?comps 0 ?h
              = Some (''<!DOCTYPE html>'' @ NL @ ''<html><body>Content</body></html>'')"
    by auto
  from r1 w1 c1 w2 show ?thesis by (intro conjI)
qed

theorem renderHtml_two_html_counterexample:
  \<open>renderHtml (\<lambda>f p c. VNode (Tag ''p'') p c) 0
      (VNode (Tag ''html'') [] [CVNode (VNode (Tag ''html'') [] [])])
     = Some (''<!DOCTYPE html>'' @ NL @ ''<html><html></html></html>'')
   \<and> count_occ ''<html'' (''<!DOCTYPE html>'' @ NL @ ''<html><html></html></html>'') = 2\<close>
  by code_simp

section \<open>Sending\<close>

lemma compile_meta:
  "compile comps fuel convert template props = Some compiled \<Longrightarrow>
     compiled_meta compiled
       = (case template props of TemplateResult body m \<Rightarrow> m | BareVNode v \<Rightarrow> None)"
  by (auto simp: compile_def split: TemplateOutput.splits option.splits)

lemma SendResult_rebuilt:
  "\<lparr>messageId = messageId r, accepted = accepted r, rejected = rejected r\<rparr> = (r::SendResult)"
  by simp

text \<open>
  C3, as the code has it. The subject is \<open>options.subject\<close> if given, else the subject of
  the template's metadata. If that is missing or is the empty string, \<open>send\<close> fails with
  the subject error and the transport is not called (the list of messages handed to
  \<open>sendMail\<close> is unchanged). Otherwise \<open>sendMail\<close> is called once, with the subject
  \<open>prefix + subject + suffix\<close>, an affix that is not configured being empty, and \<open>send\<close>
  returns what the transport answers. All this once the template has been compiled.
\<close>

theorem send_subject_resolution:
  assumes c: "compile comps fuel convert template (opt_props options) = Some compiled"
    and raw: "raw = (case opt_subject options of
                       Some s \<Rightarrow> Some s
                     | None \<Rightarrow>
                         (case template (opt_props options) of
                            TemplateResult body (Some m) \<Rightarrow> meta_subject m
                          | _ \<Rightarrow> None))"
  shows "(raw = None \<or> raw = Some [] \<longrightarrow>
            send comps fuel convert config sendMail template options sent
              = Some (Inl SubjectRequired, sent))
       \<and> (\<forall>s. raw = Some s \<and> s \<noteq> [] \<longrightarrow>
            (\<exists>message.
               send comps fuel convert config sendMail template options sent
                 = Some (case sendMail message of
                           Inl e \<Rightarrow> Inl (TransportError e)
                         | Inr result \<Rightarrow> Inr result,
                         sent @ [message])
               \<and> msg_subject message
                   = (case subjectPrefix config of Some p \<Rightarrow> p | None \<Rightarrow> [])
                     @ s
                     @ (case subjectSuffix config of Some x \<Rightarrow> x | None \<Rightarrow> [])))"
proof -
  have m: "compiled_meta compiled
             = (case template (opt_props options) of
                  TemplateResult body m \<Rightarrow> m | BareVNode v \<Rightarrow> None)"
    by (rule compile_meta [OF c])
  have r: "coalesce (opt_subject options) (Option.bind (compiled_meta compiled) meta_subject)
             = raw"
    unfolding raw m
    by (simp add: coalesce_def split: option.splits TemplateOutput.splits)
  show ?thesis
  proof (intro conjI impI allI)
    assume "raw = None \<or> raw = Some []"
    then show "send comps fuel convert config sendMail template options sent
                 = Some (Inl SubjectRequired, sent)"
      using c r by (auto simp: send_def Let_def)
  next
    fix s
    assume s: "raw = Some s \<and> s \<noteq> []"
    then show "\<exists>message.
               send comps fuel convert config sendMail template options sent
                 = Some (case sendMail message of
                           Inl e \<Rightarrow> Inl (TransportError e)
                         | Inr result \<Rightarrow> Inr result,
                         sent @ [message])
               \<and> msg_subject message
                   = (case subjectPrefix config of Some p \<Rightarrow> p | None \<Rightarrow> [])
                     @ s
                     @ (case subjectSuffix config of Some x \<Rightarrow> x | None \<Rightarrow> [])"
      using c r
      by (auto simp: send_def Let_def formatSubject_def SendResult_rebuilt
          split: sum.splits)
  qed
qed

theorem send_subject_resolution_witness:
  \<open>(\<exists>message.
       send (\<lambda>f p c. VNode (Tag ''p'') p c) 0 (\<lambda>h. h)
         \<lparr>defaultFrom = Some (Addr ''noreply@example.com''),
          subjectPrefix = Some ''[App] '', subjectSuffix = None\<rparr>
         (\<lambda>m. Inr \<lparr>messageId = ''id1'', accepted = [''recipient@example.com''],
                    rejected = []\<rparr>)
         (\<lambda>u. TemplateResult (VNode (Tag ''p'') [] [CStr ''Test''])
                 (Some \<lparr>meta_subject = Some ''From Template'', meta_from = None,
                        meta_replyTo = None\<rparr>))
         \<lparr>opt_to = One (Addr ''recipient@example.com''), opt_subject = None, opt_from = None,
          opt_cc = None, opt_bcc = None, opt_replyTo = None, opt_props = ()\<rparr>
         []
       = Some (Inr \<lparr>messageId = ''id1'', accepted = [''recipient@example.com''],
                    rejected = []\<rparr>,
               [message])
       \<and> msg_subject message = ''[App] From Template'')
   \<and> send (\<lambda>f p c. VNode (Tag ''p'') p c) 0 (\<lambda>h. h)
         \<lparr>defaultFrom = Some (Addr ''noreply@example.com''),
          subjectPrefix = Some ''[App] '', subjectSuffix = None\<rparr>
         (\<lambda>m. Inr \<lparr>messageId = ''id1'', accepted = [''recipient@example.com''],
                    rejected = []\<rparr>)
         (\<lambda>u. BareVNode (VNode (Tag ''p'') [] [CStr ''Test'']))
         \<lparr>opt_to = One (Addr ''recipient@example.com''), opt_subject = None, opt_from = None,
          opt_cc = None, opt_bcc = None, opt_replyTo = None, opt_props = ()\<rparr>
         []
       = Some (Inl SubjectRequired, [])\<close>
proof -
  let ?comps = "\<lambda>(f::nat) p c. VNode (Tag ''p'') p c"
  let ?config = "\<lparr>defaultFrom = Some (Addr ''noreply@example.com''),
          subjectPrefix = Some ''[App] '', subjectSuffix = None\<rparr>"
  let ?sendMail = "\<lambda>m::Message. Inr \<lparr>messageId = ''id1'',
                     accepted = [''recipient@example.com''], rejected = []\<rparr>
                     :: string + SendResult"
  let ?meta = "\<lparr>meta_subject = Some ''From Template'', meta_from = None,
                 meta_replyTo = None\<rparr>"
  let ?t1 = "\<lambda>u::unit. TemplateResult (VNode (Tag ''p'') [] [CStr ''Test'']) (Some ?meta)"
  let ?t2 = "\<lambda>u::unit. BareVNode (VNode (Tag ''p'') [] [CStr ''Test''])"
  let ?options = "\<lparr>opt_to = One (Addr ''recipient@example.com''), opt_subject = None,
          opt_from = None, opt_cc = None, opt_bcc = None, opt_replyTo = None,
          opt_props = ()\<rparr>"
  let ?html = "wrapper_head @ ''<p>Test</p>'' @ wrapper_tail"
  have c1: "compile ?comps 0 (\<lambda>h. h) ?t1 (opt_props ?options)
              = Some \<lparr>compiled_html = ?html, compiled_text = ?html,
                      compiled_meta = Some ?meta\<rparr>"
    by code_simp
  have c2: "compile ?comps 0 (\<lambda>h. h) ?t2 (opt_props ?options)
              = Some \<lparr>compiled_html = ?html, compiled_text = ?html, compiled_meta = None\<rparr>"
    by code_simp
  from send_subject_resolution [OF c1 refl, of ?config ?sendMail "[]"]
  have a: "\<exists>message.
       send ?comps 0 (\<lambda>h. h) ?config ?sendMail ?t1 ?options []
       = Some (Inr \<lparr>messageId = ''id1'', accepted = [''recipient@example.com''],
                    rejected = []\<rparr>,
               [message])
       \<and> msg_subject message = ''[App] From Template''"
    by simp
  from send_subject_resolution [OF c2 refl, of ?config ?sendMail "[]"]
  have b: "send ?comps 0 (\<lambda>h. h) ?config ?sendMail ?t2 ?options []
             = Some (Inl SubjectRequired, [])"
    by simp
  from a b show ?thesis by (intro conjI)
qed

theorem send_empty_subject_counterexample:
  \<open>opt_subject
      \<lparr>opt_to = One (Addr ''recipient@example.com''), opt_subject = Some [], opt_from = None,
       opt_cc = None, opt_bcc = None, opt_replyTo = None, opt_props = ()\<rparr>
     = Some []
   \<and> send (\<lambda>f p c. VNode (Tag ''p'') p c) 0 (\<lambda>h. h)
         \<lparr>defaultFrom = Some (Addr ''noreply@example.com''),
          subjectPrefix = Some ''[App] '', subjectSuffix = None\<rparr>
         (\<lambda>m. Inr \<lparr>messageId = ''id1'', accepted = [''recipient@example.com''],
                    rejected = []\<rparr>)
         (\<lambda>u. TemplateResult (VNode (Tag ''p'') [] [CStr ''Test''])
                 (Some \<lparr>meta_subject = Some ''From Template'', meta_from = None,
                        meta_replyTo = None\<rparr>))
         \<lparr>opt_to = One (Addr ''recipient@example.com''), opt_subject = Some [], opt_from = None,
          opt_cc = None, opt_bcc = None, opt_replyTo = None, opt_props = ()\<rparr>
         []
       = Some (Inl SubjectRequired, [])\<close>
  by code_simp

end
